theory Spec2Isabelle
  imports Complex_Main "HOL-Library.AList"
begin

section \<open>Data model\<close>

text \<open>
  The attendance handler (the edge function \<^verbatim>\<open>process-attendance\<close>, the version that
  receives face descriptors from the client) reads two tables and writes two.
  JavaScript numbers are idealised as real numbers: rounding, overflow, infinities and NaN
  of IEEE doubles are outside this model. The one infinity the handler itself introduces,
  the initial value \<^verbatim>\<open>Number.POSITIVE_INFINITY\<close> of \<^verbatim>\<open>best\<close>, is the value \<open>None\<close> of a
  \<open>real option\<close>. Identifiers (UUID columns) are strings.
\<close>

type_synonym embedding = "real list"

text \<open>
  A row of \<^verbatim>\<open>students\<close>: the columns the handler filters on or reads
  (\<^verbatim>\<open>id\<close>, \<^verbatim>\<open>user_id\<close>, \<^verbatim>\<open>class\<close>, \<^verbatim>\<open>face_registered\<close>).
\<close>

record student =
  sid :: string
  user_id :: string
  s_class :: string
  face_registered :: bool

text \<open>
  A row of \<^verbatim>\<open>faces_data\<close>. The handler tests \<^verbatim>\<open>Array.isArray(emb)\<close>, so the
  embedding is optional here: \<open>None\<close> is any value that is not an array.
\<close>

record face_row =
  f_user_id :: string
  f_student_id :: string
  f_embedding :: "embedding option"

datatype analysis_status = Pending | Processing | Completed | Failed

record photo =
  analysis_status :: analysis_status
  faces_detected :: nat

record unknown_face =
  index :: nat
  bestDistance :: "real option"

record attendance_record =
  photo_id :: string
  class_id :: string
  present_students :: "string list"
  absent_students :: "string list"
  unknown_faces :: "unknown_face list"

section \<open>Distance\<close>

text \<open>
  \<^verbatim>\<open>dist\<close>: the loop runs over the indices below \<^verbatim>\<open>Math.min(a.length, b.length)\<close>
  and the square root of the accumulated sum is returned. No branch of it throws.
\<close>

definition dist_emb :: "embedding \<Rightarrow> embedding \<Rightarrow> real" where
  "dist_emb a b =
     (let len = min (length a) (length b);
          s = foldl (\<lambda>s i. let d = a ! i - b ! i in s + d * d) 0 [0..<len]
      in sqrt s)"

definition THRESHOLD :: real where
  "THRESHOLD = 0.6"

text \<open>\<^verbatim>\<open>isFaceMatch\<close> of the client utilities, with its default threshold.\<close>

definition isFaceMatch :: "real \<Rightarrow> real \<Rightarrow> bool" where
  "isFaceMatch similarity threshold = (similarity < threshold)"

definition isFaceMatch_default :: "real \<Rightarrow> bool" where
  "isFaceMatch_default similarity = isFaceMatch similarity 0.6"

text \<open>
  The distance function as the specification words it: a length mismatch is an error,
  equal lengths give the Euclidean distance.
\<close>

datatype dist_error = LengthMismatch

definition euclidean :: "embedding \<Rightarrow> embedding \<Rightarrow> real" where
  "euclidean a b = sqrt (\<Sum>i<length a. (a ! i - b ! i)\<^sup>2)"

definition distance_spec :: "embedding \<Rightarrow> embedding \<Rightarrow> dist_error + real" where
  "distance_spec a b = (if length a \<noteq> length b then Inl LengthMismatch else Inr (euclidean a b))"

section \<open>Embeddings by user\<close>

text \<open>
  \<^verbatim>\<open>byUser\<close> is an object used as a dictionary; \<^verbatim>\<open>Object.entries\<close> lists its keys
  in insertion order (the keys are UUIDs, never array indices), so it is an association
  list here. A key is created at the first row of a user, whatever the embedding; only a
  non-empty array is pushed.
\<close>

type_synonym by_user = "(string \<times> embedding list) list"

definition add_face :: "by_user \<Rightarrow> face_row \<Rightarrow> by_user" where
  "add_face byUser f =
     (let uid = f_user_id f;
          byUser1 = (if map_of byUser uid = None then byUser @ [(uid, [])] else byUser)
      in case f_embedding f of
           None \<Rightarrow> byUser1
         | Some emb \<Rightarrow>
             if length emb \<noteq> 0 then AList.map_entry uid (\<lambda>embs. embs @ [emb]) byUser1
             else byUser1)"

definition build_by_user :: "face_row list \<Rightarrow> by_user" where
  "build_by_user facesData = foldl add_face [] facesData"

section \<open>Matching\<close>

text \<open>
  The pair \<^verbatim>\<open>(bestUid, best)\<close>; \<open>None\<close> is \<^verbatim>\<open>null\<close> for the user and
  \<^verbatim>\<open>Number.POSITIVE_INFINITY\<close> for the distance.
\<close>

type_synonym best_state = "string option \<times> real option"

fun less_best :: "real \<Rightarrow> real option \<Rightarrow> bool" where
  "less_best d None = True"
| "less_best d (Some b) = (d < b)"

definition try_candidate :: "embedding \<Rightarrow> string \<Rightarrow> best_state \<Rightarrow> embedding \<Rightarrow> best_state" where
  "try_candidate desc uid st e =
     (let d = dist_emb desc e in if less_best d (snd st) then (Some uid, Some d) else st)"

definition scan_user :: "embedding \<Rightarrow> best_state \<Rightarrow> string \<times> embedding list \<Rightarrow> best_state" where
  "scan_user desc st entry = foldl (try_candidate desc (fst entry)) st (snd entry)"

definition best_match :: "by_user \<Rightarrow> embedding \<Rightarrow> best_state" where
  "best_match byUser desc = foldl (scan_user desc) (None, None) byUser"

text \<open>
  The decision \<^verbatim>\<open>if (bestUid && best < THRESHOLD)\<close>: a string is truthy when it is
  not empty, and the unknown branch stores \<^verbatim>\<open>isFinite(best) ? best : null\<close>.
\<close>

datatype outcome = Match string real | Unknown "real option"

fun decide :: "best_state \<Rightarrow> outcome" where
  "decide (Some uid, Some b) = (if uid \<noteq> [] \<and> b < THRESHOLD then Match uid b else Unknown (Some b))"
| "decide (bestUid, best) = Unknown best"

definition face_outcome :: "by_user \<Rightarrow> embedding \<Rightarrow> outcome" where
  "face_outcome byUser desc = decide (best_match byUser desc)"

text \<open>A \<^verbatim>\<open>Set\<close> of strings, in insertion order as \<^verbatim>\<open>Array.from\<close> returns it.\<close>

definition set_add :: "string \<Rightarrow> string list \<Rightarrow> string list" where
  "set_add x xs = (if x \<in> set xs then xs else xs @ [x])"

type_synonym match_state = "string list \<times> unknown_face list"

definition match_step :: "by_user \<Rightarrow> embedding list \<Rightarrow> match_state \<Rightarrow> nat \<Rightarrow> match_state" where
  "match_step byUser inputDescriptors st i =
     (case face_outcome byUser (inputDescriptors ! i) of
        Match uid b \<Rightarrow> (set_add uid (fst st), snd st)
      | Unknown best \<Rightarrow> (fst st, snd st @ [\<lparr>index = i, bestDistance = best\<rparr>]))"

definition match_faces :: "by_user \<Rightarrow> embedding list \<Rightarrow> match_state" where
  "match_faces byUser inputDescriptors =
     foldl (match_step byUser inputDescriptors) ([], []) [0..<length inputDescriptors]"

text \<open>Lines 56 to 104 of the handler: from the fetched rows and the descriptors to the three collections.\<close>

definition match_and_reconcile ::
  "student list \<Rightarrow> face_row list \<Rightarrow> embedding list \<Rightarrow> string list \<times> string list \<times> unknown_face list" where
  "match_and_reconcile students facesData inputDescriptors =
     (let byUser = build_by_user facesData;
          (presentSet, unknownFaces) = match_faces byUser inputDescriptors;
          allStudentIds = map user_id students;
          absentStudents = filter (\<lambda>id. id \<notin> set presentSet) allStudentIds
      in (presentSet, absentStudents, unknownFaces))"

section \<open>The request handler\<close>

text \<open>
  The database as the handler sees it, and the outcome of the three awaited calls whose
  error the handler inspects (\<open>None\<close>: no error; \<open>Some m\<close>: an error with message \<open>m\<close>).
  The results of the two status updates are not inspected by the handler; an update
  changes the row with the given id when there is one.
\<close>

record db =
  students_table :: "student list"
  faces_data :: "face_row list"
  photos :: "string \<rightharpoonup> photo"
  attendance_records :: "attendance_record list"

record upstream =
  studentsError :: "string option"
  facesError :: "string option"
  attendanceError :: "string option"

text \<open>
  The request body; \<^verbatim>\<open>descriptors\<close> is \<open>None\<close> when the field is not an array
  (\<^verbatim>\<open>Array.isArray(descriptors) ? descriptors : []\<close>).
\<close>

record request_body =
  photoId :: string
  classId :: string
  descriptors :: "embedding list option"

datatype request = OPTIONS | Malformed string | POST request_body

datatype response = Preflight | Success nat nat | Failure string

definition update_photo :: "string \<Rightarrow> (photo \<Rightarrow> photo) \<Rightarrow> db \<Rightarrow> db" where
  "update_photo pid f d =
     (case photos d pid of
        None \<Rightarrow> d
      | Some p \<Rightarrow> d\<lparr>photos := (photos d)(pid \<mapsto> f p)\<rparr>)"

text \<open>\<^verbatim>\<open>error.message || 'Failed to process attendance'\<close> of the catch block.\<close>

definition error_message :: "string \<Rightarrow> string" where
  "error_message m = (if m = [] then ''Failed to process attendance'' else m)"

text \<open>
  The two queries: the students of a class with \<^verbatim>\<open>face_registered = true\<close>, and the
  face rows whose \<^verbatim>\<open>student_id\<close> is one of the given ids.
\<close>

definition select_students :: "db \<Rightarrow> string \<Rightarrow> student list" where
  "select_students d cls = filter (\<lambda>s. s_class s = cls \<and> face_registered s) (students_table d)"

definition select_faces :: "db \<Rightarrow> string list \<Rightarrow> face_row list" where
  "select_faces d ids = filter (\<lambda>f. f_student_id f \<in> set ids) (faces_data d)"

definition process_attendance :: "upstream \<Rightarrow> request_body \<Rightarrow> db \<Rightarrow> response \<times> db" where
  "process_attendance up body d0 =
     (let d1 = update_photo (photoId body) (\<lambda>p. p\<lparr>analysis_status := Processing\<rparr>) d0
      in case studentsError up of
           Some err \<Rightarrow> (Failure (error_message err), d1)
         | None \<Rightarrow>
     (let students = select_students d1 (classId body)
      in case facesError up of
           Some err \<Rightarrow> (Failure (error_message err), d1)
         | None \<Rightarrow>
     (let facesData = select_faces d1 (map sid students);
          inputDescriptors = (case descriptors body of Some ds \<Rightarrow> ds | None \<Rightarrow> []);
          (presentStudents, absentStudents, unknownFaces) =
             match_and_reconcile students facesData inputDescriptors
      in case attendanceError up of
           Some err \<Rightarrow> (Failure (error_message err), d1)
         | None \<Rightarrow>
     (let d2 = d1\<lparr>attendance_records := attendance_records d1 @
                   [\<lparr>photo_id = photoId body, class_id = classId body,
                     present_students = presentStudents, absent_students = absentStudents,
                     unknown_faces = unknownFaces\<rparr>]\<rparr>;
          d3 = update_photo (photoId body)
                 (\<lambda>p. p\<lparr>analysis_status := Completed, faces_detected := length inputDescriptors\<rparr>) d2
      in (Success (length presentStudents) (length absentStudents), d3)))))"

fun serve :: "upstream \<Rightarrow> request \<Rightarrow> db \<Rightarrow> response \<times> db" where
  "serve up OPTIONS d = (Preflight, d)"
| "serve up (Malformed m) d = (Failure (error_message m), d)"
| "serve up (POST body) d = process_attendance up body d"

section \<open>The simulated handler\<close>



section \<open>Notions used in the statements\<close>

text \<open>
  The candidate set of a batch of face rows: the pairs of a user and one of the user's
  embeddings that are arrays and not empty.
\<close>

definition candidates :: "face_row list \<Rightarrow> (string \<times> embedding) set" where
  "candidates facesData =
     {(f_user_id f, e) | f e. f \<in> set facesData \<and> f_embedding f = Some e \<and> e \<noteq> []}"

text \<open>The same for the dictionary, as a set and in iteration order.\<close>

definition cands :: "by_user \<Rightarrow> (string \<times> embedding) set" where
  "cands byUser = {(uid, e). \<exists>embs. (uid, embs) \<in> set byUser \<and> e \<in> set embs}"

definition flat :: "by_user \<Rightarrow> (string \<times> embedding) list" where
  "flat byUser = concat (map (\<lambda>entry. map (Pair (fst entry)) (snd entry)) byUser)"

definition try_pair :: "embedding \<Rightarrow> best_state \<Rightarrow> string \<times> embedding \<Rightarrow> best_state" where
  "try_pair desc st c = try_candidate desc (fst c) st (snd c)"

definition unknown_entry :: "by_user \<Rightarrow> embedding list \<Rightarrow> nat \<Rightarrow> unknown_face list" where
  "unknown_entry byUser ds i =
     (case face_outcome byUser (ds ! i) of
        Match uid b \<Rightarrow> []
      | Unknown best \<Rightarrow> [\<lparr>index = i, bestDistance = best\<rparr>])"

section \<open>Example data\<close>

text \<open>
  A class \<open>A\<close> of two registered students with one embedding each, a student of another
  class, a student without registered face, and one photo waiting for its analysis.
\<close>

definition demo_students :: "student list" where
  "demo_students =
     [\<lparr>sid = ''s1'', user_id = ''u1'', s_class = ''A'', face_registered = True\<rparr>,
      \<lparr>sid = ''s2'', user_id = ''u2'', s_class = ''A'', face_registered = True\<rparr>]"

definition demo_faces :: "face_row list" where
  "demo_faces =
     [\<lparr>f_user_id = ''u1'', f_student_id = ''s1'', f_embedding = Some [1, 0, 0]\<rparr>,
      \<lparr>f_user_id = ''u2'', f_student_id = ''s2'', f_embedding = Some [1, 1, 0]\<rparr>]"

definition demo_db :: db where
  "demo_db =
     \<lparr>students_table = demo_students @
        [\<lparr>sid = ''s3'', user_id = ''u3'', s_class = ''B'', face_registered = True\<rparr>,
         \<lparr>sid = ''s4'', user_id = ''u4'', s_class = ''A'', face_registered = False\<rparr>],
      faces_data = demo_faces @
        [\<lparr>f_user_id = ''u3'', f_student_id = ''s3'', f_embedding = Some [1, 0, 0]\<rparr>],
      photos = [''p1'' \<mapsto> \<lparr>analysis_status = Pending, faces_detected = 0\<rparr>],
      attendance_records = []\<rparr>"

definition demo_ok :: upstream where
  "demo_ok = \<lparr>studentsError = None, facesError = None, attendanceError = None\<rparr>"

definition demo_body :: "embedding list option \<Rightarrow> request_body" where
  "demo_body ds = \<lparr>photoId = ''p1'', classId = ''A'', descriptors = ds\<rparr>"

definition demo_faces_malformed :: "face_row list" where
  "demo_faces_malformed =
     [\<lparr>f_user_id = ''u9'', f_student_id = ''s9'', f_embedding = Some []\<rparr>,
      \<lparr>f_user_id = ''u8'', f_student_id = ''s8'', f_embedding = None\<rparr>,
      \<lparr>f_user_id = ''u1'', f_student_id = ''s1'', f_embedding = Some [1, 0, 0]\<rparr>]"

definition demo_faces_short :: "face_row list" where
  "demo_faces_short = [\<lparr>f_user_id = ''u2'', f_student_id = ''s2'', f_embedding = Some [1]\<rparr>]"

definition demo_faces_mixed :: "face_row list" where
  "demo_faces_mixed =
     [\<lparr>f_user_id = ''u1'', f_student_id = ''s1'', f_embedding = Some [1, 1, 0]\<rparr>,
      \<lparr>f_user_id = ''u2'', f_student_id = ''s2'', f_embedding = Some [1]\<rparr>]"


section \<open>The distance loop\<close>

lemma foldl_sq_sum:
  "foldl (\<lambda>s i. let d = a ! i - b ! i in s + d * d) s0 [0..<n] = s0 + (\<Sum>i<n. (a ! i - b ! i)\<^sup>2)"
  for a b :: "real list"
proof (induction n)
  case 0
  show ?case by simp
next
  case (Suc n)
  have "foldl (\<lambda>s i. let d = a ! i - b ! i in s + d * d) s0 [0..<Suc n]
        = foldl (\<lambda>s i. let d = a ! i - b ! i in s + d * d) s0 [0..<n] + (a ! n - b ! n) * (a ! n - b ! n)"
    by (simp add: Let_def)
  also have "\<dots> = s0 + (\<Sum>i<n. (a ! i - b ! i)\<^sup>2) + (a ! n - b ! n) * (a ! n - b ! n)"
    by (simp only: Suc.IH)
  also have "\<dots> = s0 + (\<Sum>i<Suc n. (a ! i - b ! i)\<^sup>2)"
    by (simp add: power2_eq_square)
  finally show ?case .
qed

lemma dist_emb_sum:
  "dist_emb a b = sqrt (\<Sum>i<min (length a) (length b). (a ! i - b ! i)\<^sup>2)"
  unfolding dist_emb_def foldl_sq_sum by (simp add: Let_def)

lemma dist_emb_nonneg: "0 \<le> dist_emb a b"
  unfolding dist_emb_sum by (intro real_sqrt_ge_zero sum_nonneg) simp

lemma dist_emb_take:
  "dist_emb a b = dist_emb (take (min (length a) (length b)) a) (take (min (length a) (length b)) b)"
  unfolding dist_emb_sum by (simp add: min_def)

lemma dist_emb_euclidean:
  "length a = length b \<Longrightarrow> dist_emb a b = euclidean a b"
  by (simp add: dist_emb_sum euclidean_def)

lemma dist_emb_zip:
  "dist_emb a b = sqrt (\<Sum>(x, y)\<leftarrow>zip a b. (x - y)\<^sup>2)"
proof -
  have "(\<Sum>(x, y)\<leftarrow>zip a b. (x - y)\<^sup>2) = (\<Sum>i<min (length a) (length b). (a ! i - b ! i)\<^sup>2)"
    by (simp add: sum_list_sum_nth atLeast0LessThan del: min_less_iff_conj)
  then show ?thesis by (simp add: dist_emb_sum)
qed

lemma dist_emb_empty: "dist_emb desc [] = 0"
  by (simp add: dist_emb_zip)

section \<open>The dictionary and the candidate set\<close>

lemma set_flat: "set (flat byUser) = cands byUser"
  by (auto simp: flat_def cands_def)

lemma cands_Nil: "cands [] = {}"
  by (simp add: cands_def)

lemma cands_append_empty: "cands (byUser @ [(uid, [])]) = cands byUser"
  by (auto simp: cands_def)

lemma cands_Cons: "cands ((k, es) # qs) = Pair k ` set es \<union> cands qs"
  by (auto simp: cands_def)

lemma cands_map_entry:
  "uid \<in> fst ` set byUser \<Longrightarrow>
   cands (AList.map_entry uid (\<lambda>embs. embs @ [e]) byUser) = insert (uid, e) (cands byUser)"
proof (induction byUser)
  case Nil
  then show ?case by simp
next
  case (Cons p ps)
  obtain k es where p: "p = (k, es)" by (cases p)
  show ?case
  proof (cases "fst p = uid")
    case True
    then show ?thesis by (auto simp: p cands_Cons)
  next
    case False
    with Cons.prems have "uid \<in> fst ` set ps" by auto
    with Cons.IH False show ?thesis by (auto simp: p cands_Cons)
  qed
qed

lemma candidates_Nil: "candidates [] = {}"
  by (simp add: candidates_def)

lemma candidates_Cons:
  "candidates (f # fs) =
     (case f_embedding f of None \<Rightarrow> {} | Some e \<Rightarrow> if e \<noteq> [] then {(f_user_id f, e)} else {})
     \<union> candidates fs"
  by (auto simp: candidates_def split: option.splits)

lemma cands_add_face:
  "cands (add_face byUser f) =
     cands byUser \<union> (case f_embedding f of None \<Rightarrow> {} | Some e \<Rightarrow> if e \<noteq> [] then {(f_user_id f, e)} else {})"
proof -
  let ?uid = "f_user_id f"
  let ?b1 = "if map_of byUser ?uid = None then byUser @ [(?uid, [])] else byUser"
  have c1: "cands ?b1 = cands byUser" by (simp add: cands_append_empty)
  have k1: "?uid \<in> fst ` set ?b1" by (auto simp: map_of_eq_None_iff)
  show ?thesis
  proof (cases "f_embedding f")
    case None
    then show ?thesis using c1 by (simp add: add_face_def Let_def)
  next
    case (Some e)
    show ?thesis
    proof (cases "e = []")
      case True
      with Some c1 show ?thesis by (simp add: add_face_def Let_def)
    next
      case False
      have "add_face byUser f = AList.map_entry ?uid (\<lambda>embs. embs @ [e]) ?b1"
        using Some False by (simp add: add_face_def Let_def)
      then have "cands (add_face byUser f) = insert (?uid, e) (cands ?b1)"
        using cands_map_entry [OF k1] by simp
      with c1 Some False show ?thesis by simp
    qed
  qed
qed

lemma cands_foldl_add_face:
  "cands (foldl add_face byUser fs) = cands byUser \<union> candidates fs"
  by (induction fs arbitrary: byUser) (auto simp: candidates_Nil candidates_Cons cands_add_face)

lemma cands_build_by_user: "cands (build_by_user facesData) = candidates facesData"
  by (simp add: build_by_user_def cands_foldl_add_face cands_Nil)

lemma finite_candidates: "finite (candidates facesData)"
proof -
  have "candidates facesData = set (flat (build_by_user facesData))"
    by (simp add: set_flat cands_build_by_user)
  then show ?thesis by simp
qed

section \<open>The scan for the best candidate\<close>

lemma scan_user_flat:
  "foldl (scan_user desc) st byUser = foldl (try_pair desc) st (flat byUser)"
proof (induction byUser arbitrary: st)
  case Nil
  show ?case by (simp add: flat_def)
next
  case (Cons p ps)
  have "scan_user desc st p = foldl (try_pair desc) st (map (Pair (fst p)) (snd p))"
    by (simp add: scan_user_def foldl_map try_pair_def)
  with Cons.IH show ?case by (simp add: flat_def)
qed

lemma best_match_flat: "best_match byUser desc = foldl (try_pair desc) (None, None) (flat byUser)"
  by (simp add: best_match_def scan_user_flat)

lemma foldl_try_pair:
  "(foldl (try_pair desc) st cs = st \<and> (\<forall>c\<in>set cs. \<not> less_best (dist_emb desc (snd c)) (snd st)))
   \<or> (\<exists>c\<in>set cs. foldl (try_pair desc) st cs = (Some (fst c), Some (dist_emb desc (snd c)))
         \<and> less_best (dist_emb desc (snd c)) (snd st)
         \<and> (\<forall>c'\<in>set cs. dist_emb desc (snd c) \<le> dist_emb desc (snd c')))"
proof (induction cs arbitrary: st)
  case Nil
  show ?case by simp
next
  case (Cons c cs)
  let ?d = "dist_emb desc (snd c)"
  show ?case
  proof (cases "less_best ?d (snd st)")
    case False
    then have st1: "try_pair desc st c = st" by (simp add: try_pair_def try_candidate_def)
    from Cons.IH [of st] show ?thesis
    proof
      assume "foldl (try_pair desc) st cs = st \<and> (\<forall>c\<in>set cs. \<not> less_best (dist_emb desc (snd c)) (snd st))"
      with False st1 show ?thesis by simp
    next
      assume "\<exists>c\<in>set cs. foldl (try_pair desc) st cs = (Some (fst c), Some (dist_emb desc (snd c)))
         \<and> less_best (dist_emb desc (snd c)) (snd st)
         \<and> (\<forall>c'\<in>set cs. dist_emb desc (snd c) \<le> dist_emb desc (snd c'))"
      then obtain w where w: "w \<in> set cs" "foldl (try_pair desc) st cs = (Some (fst w), Some (dist_emb desc (snd w)))"
        "less_best (dist_emb desc (snd w)) (snd st)" "\<forall>c'\<in>set cs. dist_emb desc (snd w) \<le> dist_emb desc (snd c')"
        by blast
      from False w(3) have "dist_emb desc (snd w) \<le> ?d" by (cases "snd st") auto
      with w st1 show ?thesis by auto
    qed
  next
    case True
    then have st1: "try_pair desc st c = (Some (fst c), Some ?d)" by (simp add: try_pair_def try_candidate_def)
    from Cons.IH [of "(Some (fst c), Some ?d)"] show ?thesis
    proof
      assume "foldl (try_pair desc) (Some (fst c), Some ?d) cs = (Some (fst c), Some ?d)
          \<and> (\<forall>c'\<in>set cs. \<not> less_best (dist_emb desc (snd c')) (snd (Some (fst c), Some ?d)))"
      with True st1 show ?thesis by auto
    next
      assume "\<exists>w\<in>set cs. foldl (try_pair desc) (Some (fst c), Some ?d) cs = (Some (fst w), Some (dist_emb desc (snd w)))
         \<and> less_best (dist_emb desc (snd w)) (snd (Some (fst c), Some ?d))
         \<and> (\<forall>c'\<in>set cs. dist_emb desc (snd w) \<le> dist_emb desc (snd c'))"
      then obtain w where w: "w \<in> set cs" "foldl (try_pair desc) (Some (fst c), Some ?d) cs = (Some (fst w), Some (dist_emb desc (snd w)))"
        "dist_emb desc (snd w) < ?d" "\<forall>c'\<in>set cs. dist_emb desc (snd w) \<le> dist_emb desc (snd c')"
        by auto
      from True w(3) have "less_best (dist_emb desc (snd w)) (snd st)" by (cases "snd st") auto
      with w st1 show ?thesis by auto
    qed
  qed
qed

lemma best_match_cases:
  "(candidates facesData = {} \<and> best_match (build_by_user facesData) desc = (None, None))
   \<or> (\<exists>(uid, e)\<in>candidates facesData.
         best_match (build_by_user facesData) desc = (Some uid, Some (dist_emb desc e))
         \<and> (\<forall>(uid', e')\<in>candidates facesData. dist_emb desc e \<le> dist_emb desc e'))"
proof -
  let ?cs = "flat (build_by_user facesData)"
  have cs: "set ?cs = candidates facesData" by (simp add: set_flat cands_build_by_user)
  from foldl_try_pair [of desc "(None, None)" ?cs] show ?thesis
  proof
    assume "foldl (try_pair desc) (None, None) ?cs = (None, None)
        \<and> (\<forall>c\<in>set ?cs. \<not> less_best (dist_emb desc (snd c)) (snd (None, None)))"
    then have "\<forall>c\<in>set ?cs. False" and bm: "best_match (build_by_user facesData) desc = (None, None)"
      by (simp_all add: best_match_flat)
    then have "?cs = []" by (cases ?cs) force+
    with cs have "candidates facesData = {}" by simp
    with bm show ?thesis by simp
  next
    assume "\<exists>c\<in>set ?cs. foldl (try_pair desc) (None, None) ?cs = (Some (fst c), Some (dist_emb desc (snd c)))
         \<and> less_best (dist_emb desc (snd c)) (snd (None, None))
         \<and> (\<forall>c'\<in>set ?cs. dist_emb desc (snd c) \<le> dist_emb desc (snd c'))"
    then show ?thesis unfolding cs best_match_flat by force
  qed
qed

lemma least_candidate_Min:
  assumes "(uid, e) \<in> candidates facesData"
    and "\<forall>(uid', e')\<in>candidates facesData. dist_emb desc e \<le> dist_emb desc e'"
  shows "Min (dist_emb desc ` snd ` candidates facesData) = dist_emb desc e"
proof (rule Min_eqI)
  show "finite (dist_emb desc ` snd ` candidates facesData)"
    by (intro finite_imageI finite_candidates)
  show "dist_emb desc e \<le> y" if "y \<in> dist_emb desc ` snd ` candidates facesData" for y
    using that assms(2) by auto
  from assms(1) show "dist_emb desc e \<in> dist_emb desc ` snd ` candidates facesData"
    by force
qed

lemma best_candidate_decides:
  assumes "\<forall>f\<in>set facesData. f_user_id f \<noteq> []"
  shows "(candidates facesData = {} \<longrightarrow>
            face_outcome (build_by_user facesData) desc = Unknown None)
       \<and> (candidates facesData \<noteq> {} \<longrightarrow>
            (\<exists>uid e. (uid, e) \<in> candidates facesData
               \<and> dist_emb desc e = Min (dist_emb desc ` snd ` candidates facesData)
               \<and> best_match (build_by_user facesData) desc = (Some uid, Some (dist_emb desc e))
               \<and> face_outcome (build_by_user facesData) desc
                   = (if dist_emb desc e < 0.6 then Match uid (dist_emb desc e)
                      else Unknown (Some (dist_emb desc e)))))"
proof -
  from best_match_cases [of facesData desc] show ?thesis
  proof
    assume "candidates facesData = {} \<and> best_match (build_by_user facesData) desc = (None, None)"
    then show ?thesis by (simp add: face_outcome_def)
  next
    assume "\<exists>(uid, e)\<in>candidates facesData.
         best_match (build_by_user facesData) desc = (Some uid, Some (dist_emb desc e))
         \<and> (\<forall>(uid', e')\<in>candidates facesData. dist_emb desc e \<le> dist_emb desc e')"
    then obtain uid e where ue: "(uid, e) \<in> candidates facesData"
        "best_match (build_by_user facesData) desc = (Some uid, Some (dist_emb desc e))"
        "\<forall>(uid', e')\<in>candidates facesData. dist_emb desc e \<le> dist_emb desc e'"
      by blast
    from ue(1) assms have ne: "uid \<noteq> []" by (auto simp: candidates_def)
    have m: "dist_emb desc e = Min (dist_emb desc ` snd ` candidates facesData)"
      by (rule least_candidate_Min [OF ue(1,3), symmetric])
    have o: "face_outcome (build_by_user facesData) desc
         = (if dist_emb desc e < 0.6 then Match uid (dist_emb desc e)
            else Unknown (Some (dist_emb desc e)))"
      using ne by (simp add: face_outcome_def ue(2) THRESHOLD_def)
    from ue(1) have "candidates facesData \<noteq> {}" by auto
    moreover from ue(1,2) m o have "\<exists>uid e. (uid, e) \<in> candidates facesData
               \<and> dist_emb desc e = Min (dist_emb desc ` snd ` candidates facesData)
               \<and> best_match (build_by_user facesData) desc = (Some uid, Some (dist_emb desc e))
               \<and> face_outcome (build_by_user facesData) desc
                   = (if dist_emb desc e < 0.6 then Match uid (dist_emb desc e)
                      else Unknown (Some (dist_emb desc e)))"
      by (intro exI [of _ uid] exI [of _ e] conjI)
    ultimately show ?thesis by simp
  qed
qed

lemma Match_is_candidate:
  assumes "face_outcome (build_by_user facesData) desc = Match uid b"
  shows "\<exists>e. (uid, e) \<in> candidates facesData \<and> b = dist_emb desc e \<and> b < THRESHOLD \<and> uid \<noteq> []
            \<and> (\<forall>(uid', e')\<in>candidates facesData. b \<le> dist_emb desc e')"
proof -
  from best_match_cases [of facesData desc] show ?thesis
  proof
    assume "candidates facesData = {} \<and> best_match (build_by_user facesData) desc = (None, None)"
    with assms show ?thesis by (simp add: face_outcome_def)
  next
    assume "\<exists>(u, e)\<in>candidates facesData.
         best_match (build_by_user facesData) desc = (Some u, Some (dist_emb desc e))
         \<and> (\<forall>(uid', e')\<in>candidates facesData. dist_emb desc e \<le> dist_emb desc e')"
    then obtain u e where ue: "(u, e) \<in> candidates facesData"
        "best_match (build_by_user facesData) desc = (Some u, Some (dist_emb desc e))"
        "\<forall>(uid', e')\<in>candidates facesData. dist_emb desc e \<le> dist_emb desc e'"
      by blast
    from assms ue(2) have "u = uid" "b = dist_emb desc e" "b < THRESHOLD" "uid \<noteq> []"
      by (auto simp: face_outcome_def split: if_splits)
    with ue show ?thesis by blast
  qed
qed


section \<open>The loop over the detected faces\<close>

lemma loop_unknown:
  "snd (foldl (match_step byUser ds) st is) = snd st @ concat (map (unknown_entry byUser ds) is)"
  by (induction "is" arbitrary: st)
     (auto simp: match_step_def unknown_entry_def split: outcome.splits)

lemma loop_present:
  "set (fst (foldl (match_step byUser ds) st is)) =
     set (fst st) \<union> {uid. \<exists>i\<in>set is. \<exists>b. face_outcome byUser (ds ! i) = Match uid b}"
  by (induction "is" arbitrary: st)
     (auto simp: match_step_def set_add_def split: outcome.splits)

lemma loop_distinct:
  "distinct (fst st) \<Longrightarrow> distinct (fst (foldl (match_step byUser ds) st is))"
  by (induction "is" arbitrary: st)
     (auto simp: match_step_def set_add_def split: outcome.splits)

lemma match_faces_unknown:
  "snd (match_faces byUser ds) = concat (map (unknown_entry byUser ds) [0..<length ds])"
  by (simp add: match_faces_def loop_unknown)

lemma match_faces_present:
  "set (fst (match_faces byUser ds)) =
     {uid. \<exists>i<length ds. \<exists>b. face_outcome byUser (ds ! i) = Match uid b}"
  by (auto simp: match_faces_def loop_present)

lemma match_faces_distinct: "distinct (fst (match_faces byUser ds))"
  by (simp add: match_faces_def loop_distinct)

lemma match_and_reconcile_eq:
  "match_and_reconcile students facesData ds =
     (fst (match_faces (build_by_user facesData) ds),
      filter (\<lambda>id. id \<notin> set (fst (match_faces (build_by_user facesData) ds))) (map user_id students),
      snd (match_faces (build_by_user facesData) ds))"
  by (simp add: match_and_reconcile_def Let_def split: prod.splits)

lemma match_and_reconcile_Nil:
  "match_and_reconcile students facesData [] = ([], map user_id students, [])"
  by (simp add: match_and_reconcile_def match_faces_def)

lemma index_unknown_entries:
  "map index (concat (map (unknown_entry byUser ds) is)) =
     filter (\<lambda>i. \<exists>best. face_outcome byUser (ds ! i) = Unknown best) is"
  by (induction "is") (auto simp: unknown_entry_def split: outcome.splits)


lemma unknown_of_reconcile:
  assumes "match_and_reconcile students facesData ds = (present, absent, unknown)"
  shows "unknown = concat (map (unknown_entry (build_by_user facesData) ds) [0..<length ds])"
    and "set present = {uid. \<exists>i<length ds. \<exists>b. face_outcome (build_by_user facesData) (ds ! i) = Match uid b}"
    and "distinct present"
    and "absent = filter (\<lambda>id. id \<notin> set present) (map user_id students)"
proof -
  from assms have p: "present = fst (match_faces (build_by_user facesData) ds)"
    and a: "absent = filter (\<lambda>id. id \<notin> set present) (map user_id students)"
    and k: "unknown = snd (match_faces (build_by_user facesData) ds)"
    by (auto simp: match_and_reconcile_eq)
  from k show "unknown = concat (map (unknown_entry (build_by_user facesData) ds) [0..<length ds])"
    by (simp only: match_faces_unknown)
  from p show "set present = {uid. \<exists>i<length ds. \<exists>b. face_outcome (build_by_user facesData) (ds ! i) = Match uid b}"
    by (simp only: match_faces_present)
  from p show "distinct present" by (simp only: match_faces_distinct)
  from a show "absent = filter (\<lambda>id. id \<notin> set present) (map user_id students)" .
qed

lemma index_in_unknown_iff:
  assumes "unknown = concat (map (unknown_entry byUser ds) [0..<length ds])"
  shows "i \<in> index ` set unknown \<longleftrightarrow> i < length ds \<and> (\<exists>best. face_outcome byUser (ds ! i) = Unknown best)"
proof -
  have "index ` set unknown = set (map index unknown)" by simp
  also have "\<dots> = set (filter (\<lambda>i. \<exists>best. face_outcome byUser (ds ! i) = Unknown best) [0..<length ds])"
    by (simp only: assms index_unknown_entries)
  finally show ?thesis by auto
qed



lemma distinct_count_list_one: "distinct xs \<Longrightarrow> x \<in> set xs \<Longrightarrow> count_list xs x = 1"
  by (induction xs) (auto simp: count_list_0_iff)

section \<open>Runs of the handler\<close>

lemma update_photo_tables:
  "students_table (update_photo pid g d) = students_table d"
  "faces_data (update_photo pid g d) = faces_data d"
  "attendance_records (update_photo pid g d) = attendance_records d"
  by (simp_all add: update_photo_def split: option.splits)

lemma select_update_photo:
  "select_students (update_photo pid g d) cls = select_students d cls"
  "select_faces (update_photo pid g d) ids = select_faces d ids"
  by (simp_all add: select_students_def select_faces_def update_photo_tables)


lemma process_attendance_success:
  assumes "studentsError up = None" "facesError up = None" "attendanceError up = None"
    and "students = select_students d (classId body)"
    and "ds = (case descriptors body of Some ds \<Rightarrow> ds | None \<Rightarrow> [])"
    and "match_and_reconcile students (select_faces d (map sid students)) ds = (present, absent, unknown)"
  shows "process_attendance up body d =
           (Success (length present) (length absent),
            update_photo (photoId body) (\<lambda>p. p\<lparr>analysis_status := Completed, faces_detected := length ds\<rparr>)
              ((update_photo (photoId body) (\<lambda>p. p\<lparr>analysis_status := Processing\<rparr>) d)
                 \<lparr>attendance_records := attendance_records d @
                    [\<lparr>photo_id = photoId body, class_id = classId body,
                      present_students = present, absent_students = absent,
                      unknown_faces = unknown\<rparr>]\<rparr>))"
  using assms by (simp add: process_attendance_def Let_def select_update_photo update_photo_tables)


lemma failed_never_written:
  assumes "process_attendance up body d = (resp, d')"
  shows "map_option analysis_status (photos d' pid)
           \<in> {map_option analysis_status (photos d pid), Some Processing, Some Completed}"
  using assms
  by (auto simp: process_attendance_def Let_def update_photo_def
      split: option.splits prod.splits if_splits)


section \<open>The example data evaluated\<close>

lemma demo_by_user: "build_by_user demo_faces = [(''u1'', [[1, 0, 0]]), (''u2'', [[1, 1, 0]])]"
  by (simp add: demo_faces_def build_by_user_def add_face_def)

lemmas outcome_defs = face_outcome_def best_match_def scan_user_def try_candidate_def
  dist_emb_zip THRESHOLD_def

lemma demo_outcome_near: "face_outcome (build_by_user demo_faces) [1, 0, 0] = Match ''u1'' 0"
  unfolding demo_by_user by (simp add: outcome_defs)

lemma demo_outcome_far: "face_outcome (build_by_user demo_faces) [1, 2, 0] = Unknown (Some 1)"
  unfolding demo_by_user by (simp add: outcome_defs)


lemma demo_match_two:
  "match_and_reconcile demo_students demo_faces [[1, 0, 0], [1, 2, 0], [1, 0, 0]] = ([''u1''], [''u2''], [\<lparr>index = 1, bestDistance = Some 1\<rparr>])"
  by (simp add: match_and_reconcile_def match_faces_def match_step_def set_add_def
      demo_outcome_near demo_outcome_far demo_students_def)

lemma demo_uids_nonempty: "\<forall>f\<in>set demo_faces. f_user_id f \<noteq> []"
  by (simp add: demo_faces_def)

lemma demo_candidates: "candidates demo_faces = {(''u1'', [1, 0, 0]), (''u2'', [1, 1, 0])}"
  by (simp add: demo_faces_def candidates_Cons candidates_Nil insert_commute)

lemma demo_select_students: "select_students demo_db ''A'' = demo_students"
  by (simp add: select_students_def demo_db_def demo_students_def)





lemma demo_by_user_malformed:
  "build_by_user demo_faces_malformed = [(''u9'', []), (''u8'', []), (''u1'', [[1, 0, 0]])]"
  by (simp add: demo_faces_malformed_def build_by_user_def add_face_def)

lemma demo_outcome_malformed:
  "face_outcome (build_by_user demo_faces_malformed) [1, 0, 0] = Match ''u1'' 0"
  unfolding demo_by_user_malformed by (simp add: outcome_defs)

lemma demo_by_user_short: "build_by_user demo_faces_short = [(''u2'', [[1]])]"
  by (simp add: demo_faces_short_def build_by_user_def add_face_def)

lemma demo_outcome_short: "face_outcome (build_by_user demo_faces_short) [1, 0, 0] = Match ''u2'' 0"
  unfolding demo_by_user_short by (simp add: outcome_defs)

lemma demo_by_user_mixed: "build_by_user demo_faces_mixed = [(''u1'', [[1, 1, 0]]), (''u2'', [[1]])]"
  by (simp add: demo_faces_mixed_def build_by_user_def add_face_def)

lemma demo_outcome_mixed: "face_outcome (build_by_user demo_faces_mixed) [1, 0, 0] = Match ''u2'' 0"
  unfolding demo_by_user_mixed by (simp add: outcome_defs)

lemma demo_candidates_mixed: "candidates demo_faces_mixed = {(''u1'', [1, 1, 0]), (''u2'', [1])}"
  by (simp add: demo_faces_mixed_def candidates_Cons candidates_Nil insert_commute)








section \<open>The roster is split in present and absent\<close>




section \<open>Every detected face has one outcome\<close>



section \<open>The decision rule of the matcher\<close>

text \<open>
  C3: the decision of the matcher for one detected face. Without any candidate embedding
  the face is unknown with a null best distance. Otherwise the best distance is the least
  distance over all candidate embeddings, reached by an embedding of the best user; the
  face is a match for that user exactly when this distance is below \<open>0.6\<close>, and unknown
  with this distance otherwise. User ids are not empty strings. The client's
  \<^verbatim>\<open>isFaceMatch\<close> applies the same strict comparison with the same default threshold.
\<close>

theorem matcher_decision_rule:
  assumes "\<forall>f\<in>set facesData. f_user_id f \<noteq> []"
  shows "(candidates facesData = {} \<longrightarrow>
            face_outcome (build_by_user facesData) desc = Unknown None)
       \<and> (candidates facesData \<noteq> {} \<longrightarrow>
            (\<exists>uid e. (uid, e) \<in> candidates facesData
               \<and> dist_emb desc e = Min (dist_emb desc ` snd ` candidates facesData)
               \<and> best_match (build_by_user facesData) desc = (Some uid, Some (dist_emb desc e))
               \<and> face_outcome (build_by_user facesData) desc
                   = (if dist_emb desc e < 0.6 then Match uid (dist_emb desc e)
                      else Unknown (Some (dist_emb desc e)))))
       \<and> THRESHOLD = 0.6 \<and> isFaceMatch_default x = (x < THRESHOLD)"
proof -
  have "THRESHOLD = 0.6 \<and> isFaceMatch_default x = (x < THRESHOLD)"
    by (simp add: THRESHOLD_def isFaceMatch_default_def isFaceMatch_def)
  with best_candidate_decides [OF assms, of desc] show ?thesis by (intro conjI) (elim conjE, assumption)+
qed

theorem matcher_decision_rule_witness:
  "candidates [] = {} \<and> face_outcome (build_by_user []) [1, 2, 0] = Unknown None
   \<and> candidates demo_faces \<noteq> {}
   \<and> Min (dist_emb [1, 2, 0] ` snd ` candidates demo_faces) = 1
   \<and> face_outcome (build_by_user demo_faces) [1, 2, 0] = Unknown (Some 1)
   \<and> Min (dist_emb [1, 0, 0] ` snd ` candidates demo_faces) = 0
   \<and> face_outcome (build_by_user demo_faces) [1, 0, 0] = Match ''u1'' 0"
proof -
  have e: "\<forall>f\<in>set ([] :: face_row list). f_user_id f \<noteq> []" by simp
  have ne: "candidates demo_faces \<noteq> {}" by (simp add: demo_candidates)
  from matcher_decision_rule [OF e, of "[1, 2, 0]", THEN conjunct1]
  have 1: "face_outcome (build_by_user []) [1, 2, 0] = Unknown None"
    by (simp add: candidates_Nil)
  from matcher_decision_rule [OF demo_uids_nonempty, of "[1, 2, 0]", THEN conjunct2, THEN conjunct1] ne
  have 2: "Min (dist_emb [1, 2, 0] ` snd ` candidates demo_faces) = 1"
    by (auto simp: demo_outcome_far split: if_splits)
  from matcher_decision_rule [OF demo_uids_nonempty, of "[1, 0, 0]", THEN conjunct2, THEN conjunct1] ne
  have 3: "Min (dist_emb [1, 0, 0] ` snd ` candidates demo_faces) = 0"
    by (auto simp: demo_outcome_near split: if_splits)
  from 1 2 3 ne show ?thesis
    by (simp add: candidates_Nil demo_outcome_far demo_outcome_near)
qed

section \<open>The distance of embeddings of different lengths\<close>

text \<open>
  C4, as the specification states it: two embeddings of different lengths make the distance
  function fail with a length-mismatch error. The handler's \<^verbatim>\<open>dist\<close> has no failing
  branch: on \<open>[1, 0, 0]\<close> and \<open>[1]\<close> it returns \<open>0\<close>, where the specified function
  reports the mismatch.
\<close>

theorem dist_length_mismatch_counterexample:
  "length [1, 0, 0 :: real] \<noteq> length [1 :: real]
   \<and> distance_spec [1, 0, 0] [1] = Inl LengthMismatch
   \<and> dist_emb [1, 0, 0] [1] = 0
   \<and> Inr (dist_emb [1, 0, 0] [1]) \<noteq> distance_spec [1, 0, 0] [1]"
  by (simp add: dist_emb_zip distance_spec_def)

text \<open>
  C4, amended: \<^verbatim>\<open>dist\<close> never fails. It returns the Euclidean distance of the two
  embeddings cut to their common length, a non-negative number; for embeddings of equal
  length this is the Euclidean distance the specification asks for.
\<close>

theorem dist_emb_common_prefix:
  "dist_emb a b = euclidean (take (min (length a) (length b)) a) (take (min (length a) (length b)) b)
   \<and> 0 \<le> dist_emb a b
   \<and> (length a = length b \<longrightarrow> distance_spec a b = Inr (dist_emb a b))"
proof -
  let ?n = "min (length a) (length b)"
  have "dist_emb a b = dist_emb (take ?n a) (take ?n b)" by (rule dist_emb_take)
  also have "\<dots> = euclidean (take ?n a) (take ?n b)" by (rule dist_emb_euclidean) simp
  finally have 1: "dist_emb a b = euclidean (take ?n a) (take ?n b)" .
  have 3: "length a = length b \<longrightarrow> distance_spec a b = Inr (dist_emb a b)"
    by (simp add: distance_spec_def dist_emb_euclidean)
  from 1 dist_emb_nonneg 3 show ?thesis by blast
qed

theorem dist_emb_common_prefix_witness:
  "length [1, 0, 0 :: real] = length [1, 0, 2 :: real]
   \<and> distance_spec [1, 0, 0] [1, 0, 2] = Inr 2
   \<and> dist_emb [1, 0] [1, 0, 2] = euclidean [1, 0] [1, 0]"
  using dist_emb_common_prefix [of "[1, 0, 0]" "[1, 0, 2]"] dist_emb_common_prefix [of "[1, 0]" "[1, 0, 2]"]
  by (simp add: dist_emb_zip)

section \<open>Candidates of a different length\<close>

text \<open>
  C5, as the specification states it: a registered embedding whose length differs from the
  descriptor's is skipped and never wins. In the handler the only candidate, of length 1,
  wins the match against a descriptor of length 3.
\<close>

theorem mismatched_candidate_wins_counterexample:
  "candidates demo_faces_short = {(''u2'', [1])}
   \<and> length [1 :: real] \<noteq> length [1, 0, 0 :: real]
   \<and> face_outcome (build_by_user demo_faces_short) [1, 0, 0] = Match ''u2'' 0
   \<and> match_and_reconcile demo_students demo_faces_short [[1, 0, 0]] = ([''u2''], [''u1''], [])"
  by (simp add: match_and_reconcile_def match_faces_def match_step_def set_add_def
      demo_outcome_short demo_students_def)
     (simp add: demo_faces_short_def candidates_Cons candidates_Nil)

text \<open>
  C5, amended: a candidate embedding of any length is compared with the descriptor on
  their common prefix, and the scan goes on: the comparison never aborts the matching. The
  best distance found is at most that prefix distance, so the candidate takes part in the
  minimum. When its prefix distance is below the threshold the face is matched; it is
  matched to the candidate's user when the candidates of all other users are farther, and
  at exactly the prefix distance when every other candidate is farther.
\<close>

theorem mismatched_candidate_compared_on_prefix:
  assumes "\<forall>f\<in>set facesData. f_user_id f \<noteq> []"
    and "(uid, e) \<in> candidates facesData"
    and "d = euclidean (take (min (length desc) (length e)) desc) (take (min (length desc) (length e)) e)"
  shows "try_candidate desc uid st e = (if less_best d (snd st) then (Some uid, Some d) else st)
       \<and> (\<exists>u b. best_match (build_by_user facesData) desc = (Some u, Some b) \<and> b \<le> d)
       \<and> (d < THRESHOLD \<longrightarrow> (\<exists>u b. face_outcome (build_by_user facesData) desc = Match u b \<and> b \<le> d))
       \<and> (d < THRESHOLD \<and> (\<forall>(uid', e')\<in>candidates facesData. uid' \<noteq> uid \<longrightarrow> d < dist_emb desc e')
            \<longrightarrow> (\<exists>b. face_outcome (build_by_user facesData) desc = Match uid b \<and> b \<le> d))
       \<and> (d < THRESHOLD
              \<and> (\<forall>(uid', e')\<in>candidates facesData. (uid', e') \<noteq> (uid, e) \<longrightarrow> d < dist_emb desc e')
            \<longrightarrow> face_outcome (build_by_user facesData) desc = Match uid d)"
proof -
  have d: "dist_emb desc e = d"
    unfolding assms(3)
    by (subst dist_emb_take, rule dist_emb_euclidean) simp
  have 1: "try_candidate desc uid st e = (if less_best d (snd st) then (Some uid, Some d) else st)"
    by (simp add: try_candidate_def d)
  from best_match_cases [of facesData desc] assms(2)
  obtain u e' where ue: "(u, e') \<in> candidates facesData"
      "best_match (build_by_user facesData) desc = (Some u, Some (dist_emb desc e'))"
      "\<forall>(uid', e'')\<in>candidates facesData. dist_emb desc e' \<le> dist_emb desc e''"
    by blast
  from ue(3) assms(2) d have le: "dist_emb desc e' \<le> d" by auto
  from ue(1) assms(1) have "u \<noteq> []" by (auto simp: candidates_def)
  with ue(2) le have o: "d < THRESHOLD \<Longrightarrow>
      face_outcome (build_by_user facesData) desc = Match u (dist_emb desc e')"
    by (simp add: face_outcome_def)
  have 2: "\<exists>u b. best_match (build_by_user facesData) desc = (Some u, Some b) \<and> b \<le> d"
    using ue(2) le by blast
  have 3: "d < THRESHOLD \<longrightarrow> (\<exists>u b. face_outcome (build_by_user facesData) desc = Match u b \<and> b \<le> d)"
    using o le by blast
  have 4: "\<exists>b. face_outcome (build_by_user facesData) desc = Match uid b \<and> b \<le> d"
    if "d < THRESHOLD" and far: "\<forall>(uid', e')\<in>candidates facesData. uid' \<noteq> uid \<longrightarrow> d < dist_emb desc e'"
  proof -
    have "u = uid"
    proof (rule ccontr)
      assume "u \<noteq> uid"
      with far ue(1) have "d < dist_emb desc e'" by auto
      with le show False by simp
    qed
    with o [OF that(1)] le show ?thesis by blast
  qed
  have 5: "face_outcome (build_by_user facesData) desc = Match uid d"
    if "d < THRESHOLD"
      and far: "\<forall>(uid', e')\<in>candidates facesData. (uid', e') \<noteq> (uid, e) \<longrightarrow> d < dist_emb desc e'"
  proof -
    have "(u, e') = (uid, e)"
    proof (rule ccontr)
      assume "(u, e') \<noteq> (uid, e)"
      with far ue(1) have "d < dist_emb desc e'" by auto
      with le show False by simp
    qed
    with o [OF that(1)] d show ?thesis by simp
  qed
  show ?thesis
  proof (intro conjI impI)
    show "try_candidate desc uid st e = (if less_best d (snd st) then (Some uid, Some d) else st)"
      by (rule 1)
    show "\<exists>u b. best_match (build_by_user facesData) desc = (Some u, Some b) \<and> b \<le> d"
      by (rule 2)
    show "\<exists>u b. face_outcome (build_by_user facesData) desc = Match u b \<and> b \<le> d" if "d < THRESHOLD"
      using 3 that by simp
    show "\<exists>b. face_outcome (build_by_user facesData) desc = Match uid b \<and> b \<le> d"
      if "d < THRESHOLD \<and> (\<forall>(uid', e')\<in>candidates facesData. uid' \<noteq> uid \<longrightarrow> d < dist_emb desc e')"
      using 4 that by simp
    show "face_outcome (build_by_user facesData) desc = Match uid d"
      if "d < THRESHOLD
              \<and> (\<forall>(uid', e')\<in>candidates facesData. (uid', e') \<noteq> (uid, e) \<longrightarrow> d < dist_emb desc e')"
      using 5 that by simp
  qed
qed

theorem mismatched_candidate_compared_on_prefix_witness:
  "[] \<notin> f_user_id ` set demo_faces_mixed
   \<and> candidates demo_faces_mixed = {(''u1'', [1, 1, 0]), (''u2'', [1])}
   \<and> length [1 :: real] \<noteq> length [1, 0, 0 :: real]
   \<and> euclidean (take (min (length [1, 0, 0 :: real]) (length [1 :: real])) [1, 0, 0])
                (take (min (length [1, 0, 0 :: real]) (length [1 :: real])) [1]) = 0
   \<and> (0::real) < THRESHOLD \<and> (0::real) < dist_emb [1, 0, 0] [1, 1, 0]
   \<and> try_candidate [1, 0, 0] ''u2'' (None, None) [1] = (Some ''u2'', Some 0)
   \<and> face_outcome (build_by_user demo_faces_mixed) [1, 0, 0] = Match ''u2'' 0"
proof -
  have 1: "\<forall>f\<in>set demo_faces_mixed. f_user_id f \<noteq> []" by (simp add: demo_faces_mixed_def)
  have 2: "(''u2'', [1]) \<in> candidates demo_faces_mixed" by (simp add: demo_candidates_mixed)
  have 3: "(0::real) = euclidean (take (min (length [1, 0, 0 :: real]) (length [1 :: real])) [1, 0, 0])
                (take (min (length [1, 0, 0 :: real]) (length [1 :: real])) [1])"
    by (simp add: euclidean_def)
  have 4: "[] \<notin> f_user_id ` set demo_faces_mixed" by (simp add: demo_faces_mixed_def)
  have 5: "(0::real) < THRESHOLD" by (simp add: THRESHOLD_def)
  have 6: "(0::real) < dist_emb [1, 0, 0] [1, 1, 0]" by (simp add: dist_emb_zip)
  have far: "\<forall>(uid', e')\<in>candidates demo_faces_mixed.
      (uid', e') \<noteq> (''u2'', [1]) \<longrightarrow> 0 < dist_emb [1, 0, 0] e'"
    using 6 by (simp add: demo_candidates_mixed)
  have far': "\<forall>(uid', e')\<in>candidates demo_faces_mixed.
      uid' \<noteq> ''u2'' \<longrightarrow> 0 < dist_emb [1, 0, 0] e'"
    using 6 by (simp add: demo_candidates_mixed)
  note t = mismatched_candidate_compared_on_prefix [OF 1 2 3, of "(None, None)"]
  from t have a: "try_candidate [1, 0, 0] ''u2'' (None, None) [1] = (Some ''u2'', Some 0)"
    by simp
  from t 5 far have b: "face_outcome (build_by_user demo_faces_mixed) [1, 0, 0] = Match ''u2'' 0"
    by blast
  from t 5 far' have "\<exists>b. face_outcome (build_by_user demo_faces_mixed) [1, 0, 0] = Match ''u2'' b \<and> b \<le> 0"
    by blast
  from 4 demo_candidates_mixed 3 5 6 a b show ?thesis by simp
qed

section \<open>Determinism\<close>




section \<open>The status of the photo after an upstream error\<close>

text \<open>
  C7: the status after an upstream error. A failing fetch of the students, and a rejected
  insert of the record, both end in the catch block, which answers with status 500 and
  writes nothing: the photo stays \<open>Processing\<close>, it is never set to \<open>Failed\<close>.
\<close>

theorem upstream_error_leaves_processing:
  "serve \<lparr>studentsError = Some ''store unavailable'', facesError = None, attendanceError = None\<rparr>
         (POST (demo_body (Some [[1, 0, 0]]))) demo_db
     = (Failure ''store unavailable'',
        demo_db\<lparr>photos := [''p1'' \<mapsto> \<lparr>analysis_status = Processing, faces_detected = 0\<rparr>]\<rparr>)
   \<and> serve \<lparr>studentsError = None, facesError = None, attendanceError = Some ''insert rejected''\<rparr>
         (POST (demo_body (Some [[1, 0, 0]]))) demo_db
     = (Failure ''insert rejected'',
        demo_db\<lparr>photos := [''p1'' \<mapsto> \<lparr>analysis_status = Processing, faces_detected = 0\<rparr>]\<rparr>)"
  by (simp add: process_attendance_def Let_def update_photo_def error_message_def demo_body_def
      demo_db_def split: prod.splits)

section \<open>Two faces of one student\<close>

text \<open>
  C8: when two distinct detected faces are both a match for the same student, the student
  occurs exactly once in \<open>present_students\<close> and is not absent, and neither face is
  listed in \<open>unknown_faces\<close>: nothing flags the second match.
\<close>

theorem two_faces_same_student_once:
  assumes "match_and_reconcile students facesData ds = (present, absent, unknown)"
    and "i < length ds" and "j < length ds" and "i \<noteq> j"
    and "face_outcome (build_by_user facesData) (ds ! i) = Match uid bi"
    and "face_outcome (build_by_user facesData) (ds ! j) = Match uid bj"
  shows "count_list present uid = 1 \<and> uid \<notin> set absent
       \<and> i \<notin> index ` set unknown \<and> j \<notin> index ` set unknown"
proof -
  note u = unknown_of_reconcile [OF assms(1)]
  from assms(2,5) have "uid \<in> set present" unfolding u(2) by blast
  with u(3) have 1: "count_list present uid = 1" by (simp add: distinct_count_list_one)
  from \<open>uid \<in> set present\<close> have 2: "uid \<notin> set absent" by (simp add: u(4))
  from assms(5,6) have 3: "i \<notin> index ` set unknown" "j \<notin> index ` set unknown"
    by (simp_all add: index_in_unknown_iff [OF u(1)])
  from 1 2 3 show ?thesis by simp
qed

theorem two_faces_same_student_once_witness:
  "face_outcome (build_by_user demo_faces) ([[1, 0, 0], [1, 2, 0], [1, 0, 0]] ! 0) = Match ''u1'' 0
   \<and> face_outcome (build_by_user demo_faces) ([[1, 0, 0], [1, 2, 0], [1, 0, 0]] ! 2) = Match ''u1'' 0
   \<and> count_list [''u1''] ''u1'' = 1 \<and> ''u1'' \<notin> set [''u2'']
   \<and> 0 \<notin> index ` set [\<lparr>index = 1, bestDistance = Some 1\<rparr>]
   \<and> 2 \<notin> index ` set [\<lparr>index = 1, bestDistance = Some 1\<rparr>]"
proof -
  have i: "(0::nat) < length [[1, 0, 0], [1, 2, 0], [1, 0, 0 :: real]]"
    and j: "(2::nat) < length [[1, 0, 0], [1, 2, 0], [1, 0, 0 :: real]]"
    and ij: "(0::nat) \<noteq> 2"
    by simp_all
  have oi: "face_outcome (build_by_user demo_faces) ([[1, 0, 0], [1, 2, 0], [1, 0, 0]] ! 0) = Match ''u1'' 0"
    and oj: "face_outcome (build_by_user demo_faces) ([[1, 0, 0], [1, 2, 0], [1, 0, 0]] ! 2) = Match ''u1'' 0"
    by (simp_all add: demo_outcome_near)
  from two_faces_same_student_once [OF demo_match_two i j ij oi oj] oi oj
  show ?thesis by (intro conjI) (elim conjE, assumption)+
qed

section \<open>No detected face\<close>

text \<open>
  C9: with no descriptors (an empty array, or no array at all) and no upstream error, the
  handler answers with success, and the record it inserts has nobody present, the whole
  roster absent and no unknown face; the photo, when it exists, is marked completed.
\<close>

theorem no_descriptors_all_absent:
  assumes "descriptors body = Some [] \<or> descriptors body = None"
    and "studentsError up = None" and "facesError up = None" and "attendanceError up = None"
  shows "\<exists>d'. process_attendance up body d
                 = (Success 0 (length (select_students d (classId body))), d')
            \<and> attendance_records d' = attendance_records d @
                 [\<lparr>photo_id = photoId body, class_id = classId body, present_students = [],
                   absent_students = map user_id (select_students d (classId body)),
                   unknown_faces = []\<rparr>]
            \<and> (photoId body \<in> dom (photos d) \<longrightarrow>
                 map_option analysis_status (photos d' (photoId body)) = Some Completed)"
proof -
  let ?students = "select_students d (classId body)"
  from assms(1) have ds: "[] = (case descriptors body of Some ds \<Rightarrow> ds | None \<Rightarrow> [])"
    by auto
  have m: "match_and_reconcile ?students (select_faces d (map sid ?students)) []
             = ([], map user_id ?students, [])"
    by (rule match_and_reconcile_Nil)
  from process_attendance_success [OF assms(2-4) refl ds m]
  show ?thesis by (auto simp: update_photo_tables update_photo_def split: option.splits)
qed

theorem no_descriptors_all_absent_witness:
  "fst (process_attendance demo_ok (demo_body (Some [])) demo_db) = Success 0 2
   \<and> attendance_records (snd (process_attendance demo_ok (demo_body (Some [])) demo_db))
       = [\<lparr>photo_id = ''p1'', class_id = ''A'', present_students = [],
           absent_students = [''u1'', ''u2''], unknown_faces = []\<rparr>]
   \<and> map_option analysis_status
        (photos (snd (process_attendance demo_ok (demo_body (Some [])) demo_db)) ''p1'') = Some Completed"
proof -
  have 1: "descriptors (demo_body (Some [])) = Some [] \<or> descriptors (demo_body (Some [])) = None"
    by (simp add: demo_body_def)
  have 2: "studentsError demo_ok = None" and 3: "facesError demo_ok = None"
    and 4: "attendanceError demo_ok = None"
    by (simp_all add: demo_ok_def)
  have 5: "photoId (demo_body (Some [])) \<in> dom (photos demo_db)"
    by (simp add: demo_body_def demo_db_def)
  from no_descriptors_all_absent [OF 1 2 3 4, of demo_db] 5
  obtain d' where d': "process_attendance demo_ok (demo_body (Some [])) demo_db
        = (Success 0 (length (select_students demo_db (classId (demo_body (Some []))))), d')"
      "attendance_records d' = attendance_records demo_db @
                 [\<lparr>photo_id = photoId (demo_body (Some [])), class_id = classId (demo_body (Some [])),
                   present_students = [],
                   absent_students = map user_id (select_students demo_db (classId (demo_body (Some [])))),
                   unknown_faces = []\<rparr>]"
      "map_option analysis_status (photos d' (photoId (demo_body (Some [])))) = Some Completed"
    by blast
  have cls: "classId (demo_body (Some [])) = ''A''" "photoId (demo_body (Some [])) = ''p1''"
    by (simp_all add: demo_body_def)
  from d' show ?thesis
    unfolding cls demo_select_students by (simp add: demo_students_def demo_db_def)
qed

section \<open>Empty embeddings\<close>

text \<open>
  C10: the dictionary of candidates holds exactly the embeddings of the face rows that are
  arrays and not empty. A match is therefore always a match with a non-empty registered
  embedding of the matched user, at that embedding's distance, and every present student
  owns such an embedding. The empty embedding would be at distance \<open>0\<close> of every face.
\<close>

theorem empty_embedding_never_candidate:
  "cands (build_by_user facesData)
     = {(f_user_id f, e) | f e. f \<in> set facesData \<and> f_embedding f = Some e \<and> e \<noteq> []}
   \<and> (\<forall>desc uid b. face_outcome (build_by_user facesData) desc = Match uid b \<longrightarrow>
         (\<exists>f\<in>set facesData. \<exists>e. f_user_id f = uid \<and> f_embedding f = Some e \<and> e \<noteq> []
             \<and> b = dist_emb desc e))
   \<and> (\<forall>students ds uid. uid \<in> set (fst (match_and_reconcile students facesData ds)) \<longrightarrow>
         (\<exists>f\<in>set facesData. \<exists>e. f_user_id f = uid \<and> f_embedding f = Some e \<and> e \<noteq> []))
   \<and> (\<forall>desc. dist_emb desc [] = 0)"
proof -
  have 1: "cands (build_by_user facesData)
     = {(f_user_id f, e) | f e. f \<in> set facesData \<and> f_embedding f = Some e \<and> e \<noteq> []}"
    by (simp add: cands_build_by_user candidates_def)
  have 2: "\<exists>f\<in>set facesData. \<exists>e. f_user_id f = uid \<and> f_embedding f = Some e \<and> e \<noteq> []
             \<and> b = dist_emb desc e"
    if "face_outcome (build_by_user facesData) desc = Match uid b" for desc uid b
  proof -
    from Match_is_candidate [OF that] obtain e where
      "(uid, e) \<in> candidates facesData" "b = dist_emb desc e" by blast
    then show ?thesis by (auto simp: candidates_def)
  qed
  have 3: "\<exists>f\<in>set facesData. \<exists>e. f_user_id f = uid \<and> f_embedding f = Some e \<and> e \<noteq> []"
    if "uid \<in> set (fst (match_and_reconcile students facesData ds))" for students ds uid
  proof -
    from that obtain i b where "face_outcome (build_by_user facesData) (ds ! i) = Match uid b"
      by (auto simp: match_and_reconcile_eq match_faces_present)
    from 2 [OF this] show ?thesis by blast
  qed
  show ?thesis
  proof (intro conjI allI impI)
    show "cands (build_by_user facesData)
     = {(f_user_id f, e) | f e. f \<in> set facesData \<and> f_embedding f = Some e \<and> e \<noteq> []}"
      by (rule 1)
  qed (erule 2, erule 3, rule dist_emb_empty)
qed

theorem empty_embedding_never_candidate_witness:
  "face_outcome (build_by_user demo_faces_malformed) [1, 0, 0] = Match ''u1'' 0
   \<and> (\<exists>f\<in>set demo_faces_malformed. \<exists>e. f_user_id f = ''u1'' \<and> f_embedding f = Some e \<and> e \<noteq> []
         \<and> 0 = dist_emb [1, 0, 0] e)
   \<and> ''u1'' \<in> set (fst (match_and_reconcile demo_students demo_faces_malformed [[1, 0, 0]]))
   \<and> (\<exists>f\<in>set demo_faces_malformed. \<exists>e. f_user_id f = ''u1'' \<and> f_embedding f = Some e \<and> e \<noteq> [])
   \<and> cands (build_by_user demo_faces_malformed) = {(''u1'', [1, 0, 0])}"
proof -
  note t = empty_embedding_never_candidate [of demo_faces_malformed]
  have p: "''u1'' \<in> set (fst (match_and_reconcile demo_students demo_faces_malformed [[1, 0, 0]]))"
    by (simp add: match_and_reconcile_def match_faces_def match_step_def set_add_def
        demo_outcome_malformed)
  from t demo_outcome_malformed
  have 1: "\<exists>f\<in>set demo_faces_malformed. \<exists>e. f_user_id f = ''u1'' \<and> f_embedding f = Some e \<and> e \<noteq> []
         \<and> 0 = dist_emb [1, 0, 0] e"
    by blast
  from t p
  have 2: "\<exists>f\<in>set demo_faces_malformed. \<exists>e. f_user_id f = ''u1'' \<and> f_embedding f = Some e \<and> e \<noteq> []"
    by blast
  have 3: "cands (build_by_user demo_faces_malformed) = {(''u1'', [1, 0, 0])}"
    unfolding demo_by_user_malformed by (simp add: cands_Cons cands_Nil)
  from demo_outcome_malformed 1 p 2 3 show ?thesis by (intro conjI)
qed

end
